theory Spec2Isabelle
  imports Main
begin

section \<open>Strings of the Python runtime\<close>

text \<open>
  A Python \<open>str\<close> is a sequence of code points. The model uses \<open>string\<close>, whose
  characters are read as the code points U+0000 .. U+00FF; \<open>of_char\<close> gives the code
  point. The character classes below are the runtime's tables restricted to that range.
\<close>

definition isspace :: "char \<Rightarrow> bool" where
  \<comment> \<open>\<open>str.isspace\<close> on one character: what \<open>str.strip()\<close> removes\<close>
  "isspace c =
     (let n = (of_char c :: nat)
      in (9 \<le> n \<and> n \<le> 13) \<or> (28 \<le> n \<and> n \<le> 32) \<or> n = 133 \<or> n = 160)"

definition isalnum :: "char \<Rightarrow> bool" where
  \<comment> \<open>\<open>str.isalnum\<close> on one character\<close>
  "isalnum c =
     (let n = (of_char c :: nat)
      in (48 \<le> n \<and> n \<le> 57) \<or> (65 \<le> n \<and> n \<le> 90) \<or> (97 \<le> n \<and> n \<le> 122)
         \<or> n = 170 \<or> n = 178 \<or> n = 179 \<or> n = 181 \<or> n = 185 \<or> n = 186
         \<or> (188 \<le> n \<and> n \<le> 190) \<or> (192 \<le> n \<and> n \<le> 214)
         \<or> (216 \<le> n \<and> n \<le> 246) \<or> (248 \<le> n \<and> n \<le> 255))"

definition is_word :: "char \<Rightarrow> bool" where
  \<comment> \<open>the class \<open>\w\<close> of \<open>re\<close> on a \<open>str\<close> pattern: alphanumeric or underscore\<close>
  "is_word c = (isalnum c \<or> c = CHR ''_'')"

definition lstrip :: "string \<Rightarrow> string" where
  "lstrip s = dropWhile isspace s"

definition rstrip :: "string \<Rightarrow> string" where
  "rstrip s = rev (dropWhile isspace (rev s))"

definition strip :: "string \<Rightarrow> string" where
  \<comment> \<open>\<open>str.strip()\<close>: leading and trailing whitespace removed\<close>
  "strip s = rstrip (lstrip s)"

definition rstrip_chars :: "string \<Rightarrow> string \<Rightarrow> string" where
  \<comment> \<open>\<open>s.rstrip(chars)\<close>: the longest suffix made of characters of \<open>chars\<close> removed\<close>
  "rstrip_chars chars s = rev (dropWhile (\<lambda>c. c \<in> set chars) (rev s))"

definition endswith :: "string \<Rightarrow> string \<Rightarrow> bool" where
  "endswith s suffix = (length suffix \<le> length s \<and> drop (length s - length suffix) s = suffix)"

section \<open>The connector pattern\<close>

text \<open>
  \<open>_CONNECTOR_PATTERN = re.compile(r"\b(?:to|as)\b", re.IGNORECASE)\<close>.
  The pattern is matched the way the regular-expression engine does it: at a position
  \<open>i\<close> of the subject, the assertion \<open>\b\<close>, then one of the two alternatives letter by
  letter ignoring case, then \<open>\b\<close> again. A search tries the positions from the left.
\<close>

definition word_boundary :: "string \<Rightarrow> nat \<Rightarrow> bool" where
  \<comment> \<open>\<open>\b\<close> at position \<open>i\<close>: exactly one of the characters before and after is a word character\<close>
  "word_boundary s i =
     ((0 < i \<and> i \<le> length s \<and> is_word (s ! (i - 1))) \<noteq> (i < length s \<and> is_word (s ! i)))"

definition literal_ignorecase :: "char \<Rightarrow> char \<Rightarrow> string \<Rightarrow> nat \<Rightarrow> bool" where
  \<comment> \<open>a lower-case pattern letter under \<open>re.IGNORECASE\<close>: the letter or its capital\<close>
  "literal_ignorecase lo up s i = (i < length s \<and> (s ! i = lo \<or> s ! i = up))"

definition alternative_at :: "string \<Rightarrow> nat \<Rightarrow> bool" where
  \<comment> \<open>\<open>(?:to|as)\<close> at position \<open>i\<close>; both alternatives consume two characters\<close>
  "alternative_at s i =
     ((literal_ignorecase CHR ''t'' CHR ''T'' s i
         \<and> literal_ignorecase CHR ''o'' CHR ''O'' s (i + 1))
      \<or> (literal_ignorecase CHR ''a'' CHR ''A'' s i
         \<and> literal_ignorecase CHR ''s'' CHR ''S'' s (i + 1)))"

definition CONNECTOR_PATTERN_match_at :: "string \<Rightarrow> nat \<Rightarrow> bool" where
  "CONNECTOR_PATTERN_match_at s i =
     (word_boundary s i \<and> alternative_at s i \<and> word_boundary s (i + 2))"

definition CONNECTOR_PATTERN_search :: "string \<Rightarrow> nat option" where
  \<comment> \<open>start of the leftmost match, if any\<close>
  "CONNECTOR_PATTERN_search s = List.find (CONNECTOR_PATTERN_match_at s) [0..<Suc (length s)]"

definition CONNECTOR_PATTERN_split :: "string \<Rightarrow> string list" where
  \<comment> \<open>\<open>_CONNECTOR_PATTERN.split(expression, maxsplit=1)\<close>; the pattern has no capturing group\<close>
  "CONNECTOR_PATTERN_split s =
     (case CONNECTOR_PATTERN_search s of
        None \<Rightarrow> [s]
      | Some i \<Rightarrow> [take i s, drop (i + 2) s])"

section \<open>Floating-point values and their rendering\<close>

text \<open>
  A Python \<open>float\<close> is an IEEE 754 double: a finite value \<open>(-1)\<^sup>s\<cdot>m\<cdot>2\<^sup>e\<close> with a sign,
  a natural mantissa and an integer exponent (\<open>Finite s m e\<close>; \<open>m = 0\<close> gives the two
  zeros), an infinity with its sign, or a NaN. \<open>math.isnan\<close> and \<open>math.isinf\<close> read the
  constructor.
\<close>

datatype pyfloat = Finite bool nat int | Infinite bool | NaN

fun isnan :: "pyfloat \<Rightarrow> bool" where
  "isnan NaN = True"
| "isnan _ = False"

fun isinf :: "pyfloat \<Rightarrow> bool" where
  "isinf (Infinite _) = True"
| "isinf _ = False"

subsection \<open>Decimal digits\<close>

function ndigits :: "nat \<Rightarrow> nat" where
  \<comment> \<open>number of decimal digits of a natural number (1 for 0)\<close>
  "ndigits n = (if n < 10 then 1 else Suc (ndigits (n div 10)))"
  by pat_completeness auto
termination
  by (relation "measure id") auto

definition digit_char :: "nat \<Rightarrow> char" where
  \<comment> \<open>the character of a decimal digit \<open>d < 10\<close>\<close>
  "digit_char d = ''0123456789'' ! d"

function digits_of :: "nat \<Rightarrow> string" where
  \<comment> \<open>decimal numeral of a natural number, most significant digit first\<close>
  "digits_of n = (if n < 10 then [digit_char n] else digits_of (n div 10) @ [digit_char (n mod 10)])"
  by pat_completeness auto
termination
  by (relation "measure id") auto

function least_scale :: "nat \<Rightarrow> nat \<Rightarrow> nat \<Rightarrow> nat" where
  \<comment> \<open>the least \<open>k' \<ge> k\<close> with \<open>den \<le> num\<cdot>10\<^bsup>k'\<^esup>\<close>, for \<open>num > 0\<close>\<close>
  "least_scale num den k =
     (if num = 0 \<or> den \<le> num * 10 ^ k then k else least_scale num den (Suc k))"
  by pat_completeness auto
termination
proof (relation "measure (\<lambda>(num, den, k). den - num * 10 ^ k)")
  show "wf (measure (\<lambda>(num, den, k). den - num * 10 ^ k))" by simp
next
  fix num den k :: nat
  assume a: "\<not> (num = 0 \<or> den \<le> num * 10 ^ k)"
  then have "num * 10 ^ k < num * 10 ^ Suc k" and "num * 10 ^ k < den"
    by simp_all
  then have "den - num * 10 ^ Suc k < den - num * 10 ^ k"
    by (rule diff_less_mono2)
  then show "((num, den, Suc k), (num, den, k)) \<in> measure (\<lambda>(num, den, k). den - num * 10 ^ k)"
    by simp
qed

definition decimal_exponent :: "nat \<Rightarrow> nat \<Rightarrow> int" where
  \<comment> \<open>\<open>\<lfloor>log\<^sub>1\<^sub>0 (num / den)\<rfloor>\<close> for a positive fraction\<close>
  "decimal_exponent num den =
     (if den \<le> num then int (ndigits (num div den)) - 1
      else - int (least_scale num den 1))"

definition round_half_even :: "nat \<Rightarrow> nat \<Rightarrow> nat" where
  \<comment> \<open>the integer nearest to \<open>num / den\<close>, a tie going to the even neighbour\<close>
  "round_half_even num den =
     (let q = num div den; r = num mod den
      in if den < 2 * r \<or> (2 * r = den \<and> odd q) then Suc q else q)"

definition significant_digits :: "nat \<Rightarrow> nat \<Rightarrow> int \<Rightarrow> nat \<times> int" where
  \<comment> \<open>a positive \<open>m\<cdot>2\<^sup>e\<close> correctly rounded to \<open>p\<close> significant decimal digits:
      the digits as a number \<open>q\<close> with \<open>10\<^bsup>p-1\<^esup> \<le> q < 10\<^sup>p\<close>, and the decimal exponent
      \<open>x\<close> of the leading digit, so that the rounded value is \<open>q\<cdot>10\<^bsup>x-(p-1)\<^esup>\<close>\<close>
  "significant_digits p m e =
     (let num = (if 0 \<le> e then m * 2 ^ nat e else m);
          den = (if 0 \<le> e then 1 else 2 ^ nat (- e));
          x = decimal_exponent num den;
          shift = x - (int p - 1);
          q = (if 0 \<le> shift then round_half_even num (den * 10 ^ nat shift)
               else round_half_even (num * 10 ^ nat (- shift)) den)
      in if 10 ^ p \<le> q then (q div 10, x + 1) else (q, x))"

definition strip_zeros :: "string \<Rightarrow> string" where
  \<comment> \<open>trailing zeros of a fraction removed\<close>
  "strip_zeros ds = rev (dropWhile (\<lambda>c. c = CHR ''0'') (rev ds))"

fun group_rev :: "string \<Rightarrow> string" where
  \<comment> \<open>a comma after every third digit, on the reversed integer part\<close>
  "group_rev (a # b # c # d # ds) = a # b # c # CHR '','' # group_rev (d # ds)"
| "group_rev ds = ds"

definition group_thousands :: "string \<Rightarrow> string" where
  "group_thousands ds = rev (group_rev (rev ds))"

definition exponent_text :: "int \<Rightarrow> string" where
  \<comment> \<open>\<open>e+XX\<close> or \<open>e-XX\<close>, at least two exponent digits\<close>
  "exponent_text x =
     (let a = nat \<bar>x\<bar>
      in CHR ''e'' # (if x < 0 then CHR ''-'' else CHR ''+'')
           # (if a < 10 then CHR ''0'' # digits_of a else digits_of a))"

subsection \<open>The format specification\<close>

text \<open>
  \<open>_FORMAT_SPEC = ",.12g"\<close>: the thousands separator \<open>,\<close>, the precision \<open>.12\<close> and the
  presentation type \<open>g\<close>. The record holds the parsed specification; \<open>format_float\<close> is
  \<open>format(value, spec)\<close> of the runtime for a finite value and presentation type \<open>g\<close>:
  the value is rounded to \<open>precision\<close> significant digits; with \<open>x\<close> the decimal
  exponent of the rounded value, scientific notation is used when \<open>x < -4\<close> or
  \<open>precision \<le> x\<close> and fixed notation otherwise; trailing zeros of the fraction are
  removed, and the decimal point with them when no digit follows it; the integer part is
  grouped.
\<close>

record format_spec =
  thousands :: bool
  precision :: nat

definition FORMAT_SPEC :: format_spec where
  "FORMAT_SPEC = \<lparr>thousands = True, precision = 12\<rparr>"

definition general_notation :: "format_spec \<Rightarrow> bool \<Rightarrow> string \<Rightarrow> int \<Rightarrow> string" where
  \<comment> \<open>the text for a sign, the significant digits \<open>ds\<close> and the decimal exponent \<open>x\<close> of
      the first of them\<close>
  "general_notation spec neg ds x =
     (let scientific = (x < - 4 \<or> int (max 1 (precision spec)) \<le> x);
          int_part = (if scientific then take 1 ds
                      else if x < 0 then ''0''
                      else take (nat x + 1) ds);
          frac_part = strip_zeros
                     (if scientific then drop 1 ds
                      else if x < 0 then replicate (nat (- x - 1)) CHR ''0'' @ ds
                      else drop (nat x + 1) ds);
          grouped = (if thousands spec then group_thousands int_part else int_part)
      in (if neg then ''-'' else '''') @ grouped
         @ (if frac_part = [] then '''' else CHR ''.'' # frac_part)
         @ (if scientific then exponent_text x else ''''))"

definition format_float :: "format_spec \<Rightarrow> bool \<Rightarrow> nat \<Rightarrow> int \<Rightarrow> string" where
  "format_float spec neg m e =
     (if m = 0 then general_notation spec neg ''0'' 0
      else
        (let (q, x) = significant_digits (max 1 (precision spec)) m e
         in general_notation spec neg (digits_of q) x))"

fun format_value :: "pyfloat \<Rightarrow> string" where
  \<comment> \<open>\<open>_format_value\<close>; the first two equations are the branch
      \<open>math.isnan(value) or math.isinf(value)\<close>, which returns \<open>str(value)\<close>\<close>
  "format_value NaN = ''nan''"
| "format_value (Infinite neg) = (if neg then ''-inf'' else ''inf'')"
| "format_value (Finite neg m e) =
     (let formatted = format_float FORMAT_SPEC neg m e
      in if endswith formatted ''.'' then butlast formatted else formatted)"

section \<open>The calculator\<close>

subsection \<open>Exceptions and the functions the module calls\<close>

text \<open>
  An exception is a value. \<open>render_results\<close> tells three kinds apart: \<open>ValueError\<close>
  (with its message), \<open>UnitTypeNameNotFound\<close> of the unit library, and any other
  subclass of \<open>Exception\<close>.
\<close>

datatype error = ValueError string | UnitTypeNameNotFound | OtherException

text \<open>
  The module imports \<open>parse_input\<close> and \<open>convert\<close> from the unit library and calls the
  built-in \<open>float\<close> on the value text. They are parameters of the model:
  \<^item> \<open>parse_input text\<close> returns the pair \<open>(value_text, source_unit)\<close>, either of which
    may be absent, or raises;
  \<^item> \<open>py_float text\<close> is \<open>float(text)\<close>: the number read, or \<open>None\<close> for the \<open>ValueError\<close>
    of a text that is not a numeric literal;
  \<^item> \<open>convert value source_unit target_unit\<close> returns a float, returns \<open>None\<close>, or raises.
\<close>

record externals =
  parse_input :: "string \<Rightarrow> error + (string option \<times> string option)"
  py_float :: "string \<Rightarrow> pyfloat option"
  convert :: "pyfloat \<Rightarrow> string \<Rightarrow> string \<Rightarrow> error + pyfloat option"

subsection \<open>\<open>_convert_expression\<close>\<close>

text \<open>
  Every \<open>raise\<close> of the function is an \<open>Inl\<close>; an exception of \<open>parse_input\<close> or of
  \<open>convert\<close> passes through unchanged. The source rebinds \<open>source_unit\<close> and
  \<open>target_text\<close> to their stripped forms; here the stripped forms are \<open>source_unit\<close> and
  \<open>target_unit\<close>. The final \<open>float(result)\<close> is the identity on a float.
\<close>

definition convert_expression :: "externals \<Rightarrow> string \<Rightarrow> error + pyfloat" where
  "convert_expression ext expression =
     (case CONNECTOR_PATTERN_split expression of
        [source_part, target_part] \<Rightarrow>
          (let source_text = strip source_part;
               target_text = strip target_part
           in if source_text = [] \<or> target_text = []
              then Inl (ValueError ''Incomplete conversion expression'')
              else
                (case parse_input ext source_text of
                   Inl exc \<Rightarrow> Inl exc
                 | Inr (None, _) \<Rightarrow> Inl (ValueError ''Missing value or source unit'')
                 | Inr (Some value_text, None) \<Rightarrow> Inl (ValueError ''Missing value or source unit'')
                 | Inr (Some value_text, Some parsed_unit) \<Rightarrow>
                     if value_text = [] then Inl (ValueError ''Missing value or source unit'')
                     else
                       (let source_unit = rstrip_chars ''.,;'' parsed_unit;
                            target_unit = rstrip_chars ''.,;'' target_text
                        in if source_unit = [] then Inl (ValueError ''Missing value or source unit'')
                           else if target_unit = [] then Inl (ValueError ''Conversion target not provided'')
                           else
                             (case py_float ext value_text of
                                None \<Rightarrow> Inl (ValueError ''Invalid numeric value'')
                              | Some numeric_value \<Rightarrow>
                                  (case convert ext numeric_value source_unit target_unit of
                                     Inl exc \<Rightarrow> Inl exc
                                   | Inr None \<Rightarrow> Inl (ValueError ''Conversion yielded no result'')
                                   | Inr (Some result) \<Rightarrow> Inr result)))))
      | _ \<Rightarrow> Inl (ValueError ''Conversion target not provided''))"

subsection \<open>\<open>render_results\<close>\<close>

text \<open>
  The loop of \<open>render_results\<close> with its accumulator \<open>outputs\<close>; each \<open>except\<close> clause is a
  branch that appends the empty string and goes on with the next line.
\<close>

fun render_loop :: "externals \<Rightarrow> string list \<Rightarrow> string list \<Rightarrow> string list" where
  "render_loop ext outputs [] = outputs"
| "render_loop ext outputs (line # lines) =
     (let expression = strip line
      in if expression = [] then render_loop ext (outputs @ ['''']) lines
         else
           (case convert_expression ext expression of
              Inl (ValueError msg) \<Rightarrow> render_loop ext (outputs @ ['''']) lines
            | Inl UnitTypeNameNotFound \<Rightarrow> render_loop ext (outputs @ ['''']) lines
            | Inl OtherException \<Rightarrow> render_loop ext (outputs @ ['''']) lines
            | Inr val \<Rightarrow> render_loop ext (outputs @ [format_value val]) lines))"

definition render_results :: "externals \<Rightarrow> string list \<Rightarrow> string list" where
  "render_results ext lines = render_loop ext [] lines"

subsection \<open>\<open>update_results\<close>\<close>

definition is_linebreak :: "char \<Rightarrow> bool" where
  \<comment> \<open>the line boundaries of \<open>str.splitlines()\<close>\<close>
  "is_linebreak c =
     (let n = (of_char c :: nat)
      in (10 \<le> n \<and> n \<le> 13) \<or> (28 \<le> n \<and> n \<le> 30) \<or> n = 133)"

fun splitlines_from :: "string \<Rightarrow> string \<Rightarrow> string list" where
  \<comment> \<open>the scan of \<open>str.splitlines()\<close>: \<open>cur\<close> is the line read so far; a carriage return
      followed by a line feed is one boundary; a last line without a boundary is kept
      when it is not empty\<close>
  "splitlines_from cur [] = (if cur = [] then [] else [cur])"
| "splitlines_from cur (c # cs) =
     (if c = CHR 0x0D then
        (case cs of
           [] \<Rightarrow> cur # splitlines_from [] cs
         | d # ds \<Rightarrow> if d = CHR 0x0A then cur # splitlines_from [] ds
                     else cur # splitlines_from [] cs)
      else if is_linebreak c then cur # splitlines_from [] cs
      else splitlines_from (cur @ [c]) cs)"

definition splitlines :: "string \<Rightarrow> string list" where
  "splitlines text = splitlines_from [] text"

definition update_results :: "externals \<Rightarrow> string \<Rightarrow> string list" where
  "update_results ext text = render_results ext (splitlines text)"

section \<open>Notions used to state the properties\<close>

subsection \<open>The output of one line\<close>

text \<open>
  What one pass of the loop body appends for \<open>line\<close>: the empty string for a blank line
  and for a line whose evaluation raises, the formatted value otherwise.
\<close>

definition output_of :: "error + pyfloat \<Rightarrow> string" where
  "output_of r = (case r of Inl exc \<Rightarrow> '''' | Inr val \<Rightarrow> format_value val)"

definition output_line :: "externals \<Rightarrow> string \<Rightarrow> string" where
  "output_line ext line =
     (if strip line = [] then '''' else output_of (convert_expression ext (strip line)))"

subsection \<open>The connector as the specification words it\<close>

text \<open>
  ``The case-insensitive whole word \<open>to\<close> or \<open>as\<close>'': the two characters at position
  \<open>i\<close> are, in lower case, one of the two words, and the characters next to them, if
  any, are not word characters. \<open>lower\<close> is \<open>str.lower\<close> on one character.
\<close>

definition lower :: "char \<Rightarrow> char" where
  "lower c =
     (let n = (of_char c :: nat)
      in if (65 \<le> n \<and> n \<le> 90) \<or> (192 \<le> n \<and> n \<le> 214) \<or> (216 \<le> n \<and> n \<le> 222)
         then char_of (n + 32) else c)"

definition connector_at :: "string \<Rightarrow> nat \<Rightarrow> bool" where
  "connector_at s i =
     (i + 2 \<le> length s
      \<and> map lower (take 2 (drop i s)) \<in> {''to'', ''as''}
      \<and> (i = 0 \<or> \<not> is_word (s ! (i - 1)))
      \<and> (i + 2 = length s \<or> \<not> is_word (s ! (i + 2))))"

definition has_connector :: "string \<Rightarrow> bool" where
  "has_connector s = list_ex (connector_at s) [0..<length s]"

subsection \<open>A small unit library\<close>

text \<open>
  A stand-in for the unit library, to run the model on concrete lines: the parser cuts
  the text at its first space, \<open>float\<close> reads \<open>12\<close>, and the only known conversion is
  from inches to millimetres (12 inches are \<open>304.8 = 5362098306337997\<cdot>2\<^sup>-\<^sup>4\<^sup>4\<close> mm).
  The target units \<open>nothing\<close>, \<open>nan\<close>, \<open>inf\<close> and \<open>crash\<close> exercise the other outcomes of
  \<open>convert\<close>.
\<close>

definition example_parse_input :: "string \<Rightarrow> error + (string option \<times> string option)" where
  "example_parse_input text =
     (let value_text = takeWhile (\<lambda>c. c \<noteq> CHR '' '') text;
          unit_text = strip (dropWhile (\<lambda>c. c \<noteq> CHR '' '') text)
      in Inr (Some value_text, if unit_text = [] then None else Some unit_text))"

definition example_convert :: "pyfloat \<Rightarrow> string \<Rightarrow> string \<Rightarrow> error + pyfloat option" where
  "example_convert val source_unit target_unit =
     (if target_unit = ''nothing'' then Inr None
      else if target_unit = ''nan'' then Inr (Some NaN)
      else if target_unit = ''inf'' then Inr (Some (Infinite False))
      else if target_unit = ''crash'' then Inl OtherException
      else if source_unit = ''inches'' \<and> target_unit = ''mm'' \<and> val = Finite False 3 2
      then Inr (Some (Finite False 5362098306337997 (- 44)))
      else Inl UnitTypeNameNotFound)"

definition example_externals :: externals where
  "example_externals =
     \<lparr>parse_input = example_parse_input,
      py_float = (\<lambda>text. if text = ''12'' then Some (Finite False 3 2) else None),
      convert = example_convert\<rparr>"

subsection \<open>Trailing punctuation on the parsed unit\<close>

text \<open>
  A parser result with the punctuation \<open>ps\<close> appended to the unit it found; results
  without a unit, and raised exceptions, are unchanged.
\<close>

definition with_unit_suffix ::
  "string \<Rightarrow> error + (string option \<times> string option) \<Rightarrow> error + (string option \<times> string option)" where
  "with_unit_suffix ps r =
     (case r of
        Inr (value_text, Some parsed_unit) \<Rightarrow> Inr (value_text, Some (parsed_unit @ ps))
      | _ \<Rightarrow> r)"

subsection \<open>Digit characters\<close>



section \<open>Auxiliary facts\<close>

subsection \<open>The loop and the character classes\<close>

lemma output_of_simps [simp]:
  "output_of (Inl exc) = ''''" "output_of (Inr val) = format_value val"
  by (simp_all add: output_of_def)

lemma render_loop_map:
  "render_loop ext outputs lines = outputs @ map (output_line ext) lines"
proof (induction lines arbitrary: outputs)
  case Nil
  show ?case by simp
next
  case (Cons line lines)
  show ?case
  proof (cases "strip line = []")
    case True
    then show ?thesis by (simp add: Cons.IH output_line_def)
  next
    case False
    then show ?thesis
      by (cases "convert_expression ext (strip line)")
         (simp_all add: Cons.IH output_line_def Let_def split: error.splits)
  qed
qed

lemma render_results_map: "render_results ext lines = map (output_line ext) lines"
  by (simp add: render_results_def render_loop_map)

lemma isspace_not_word: "isspace c \<Longrightarrow> \<not> is_word c"
  by (auto simp: isspace_def is_word_def isalnum_def Let_def)

lemma strip_all_space: "\<forall>c\<in>set s. isspace c \<Longrightarrow> strip s = []"
proof -
  assume "\<forall>c\<in>set s. isspace c"
  then have d: "dropWhile isspace s = []" by simp
  show ?thesis unfolding strip_def lstrip_def rstrip_def d by simp
qed

lemma rstrip_append_space: "\<forall>c\<in>set ws. isspace c \<Longrightarrow> rstrip (s @ ws) = rstrip s"
  by (simp add: rstrip_def dropWhile_append)

lemma lstrip_append_nonspace:
  "ps = [] \<or> \<not> isspace (hd ps) \<Longrightarrow> lstrip (s @ ps) = lstrip s @ ps"
proof (cases "\<forall>c\<in>set s. isspace c")
  case True
  assume "ps = [] \<or> \<not> isspace (hd ps)"
  then have "dropWhile isspace ps = ps" by (cases ps) auto
  with True show ?thesis by (simp add: lstrip_def dropWhile_append)
next
  case False
  then show ?thesis by (auto simp: lstrip_def dropWhile_append)
qed

lemma rstrip_nonspace_end: "s = [] \<or> \<not> isspace (last s) \<Longrightarrow> rstrip s = s"
proof (cases s rule: rev_cases)
  case Nil
  then show ?thesis by (simp add: rstrip_def)
next
  case (snoc xs x)
  assume "s = [] \<or> \<not> isspace (last s)"
  with snoc show ?thesis by (simp add: rstrip_def)
qed

lemma last_lstrip: "lstrip s \<noteq> [] \<Longrightarrow> last (lstrip s) = last s"
proof -
  assume a: "lstrip s \<noteq> []"
  have "s = takeWhile isspace s @ lstrip s" by (simp add: lstrip_def)
  then have "last s = last (takeWhile isspace s @ lstrip s)" by simp
  also have "\<dots> = last (lstrip s)" using a by simp
  finally show ?thesis by simp
qed

lemma strip_nonspace_end: "s = [] \<or> \<not> isspace (last s) \<Longrightarrow> strip s = lstrip s"
proof -
  assume a: "s = [] \<or> \<not> isspace (last s)"
  have "lstrip s = [] \<or> \<not> isspace (last (lstrip s))"
  proof (cases "lstrip s = []")
    case True then show ?thesis by simp
  next
    case False
    then have "s \<noteq> []" by (auto simp: lstrip_def)
    with a False show ?thesis by (simp add: last_lstrip)
  qed
  then show ?thesis unfolding strip_def by (rule rstrip_nonspace_end)
qed

lemma strip_append_space: "\<forall>c\<in>set ws. isspace c \<Longrightarrow> strip (s @ ws) = strip s"
proof (cases "\<forall>c\<in>set s. isspace c")
  case True
  assume "\<forall>c\<in>set ws. isspace c"
  with True have "\<forall>c\<in>set (s @ ws). isspace c" by auto
  then have "strip (s @ ws) = []" by (rule strip_all_space)
  with True show ?thesis by (simp add: strip_all_space)
next
  case False
  assume ws: "\<forall>c\<in>set ws. isspace c"
  from False have "lstrip (s @ ws) = lstrip s @ ws" by (auto simp: lstrip_def dropWhile_append)
  with ws show ?thesis by (simp add: strip_def rstrip_append_space)
qed

lemma strip_append_punct:
  assumes "s = [] \<or> \<not> isspace (last s)" and "\<forall>c\<in>set ps. \<not> isspace c"
  shows "strip (s @ ps) = strip s @ ps"
proof (cases "ps = []")
  case True
  then show ?thesis by simp
next
  case False
  with assms(2) have hd: "\<not> isspace (hd ps)" and lst: "\<not> isspace (last ps)" by simp_all
  from hd have l: "lstrip (s @ ps) = lstrip s @ ps" by (simp add: lstrip_append_nonspace)
  from False lst have "rstrip (lstrip s @ ps) = lstrip s @ ps"
    by (intro rstrip_nonspace_end) simp
  with l have "strip (s @ ps) = lstrip s @ ps" by (simp add: strip_def)
  with assms(1) show ?thesis by (simp add: strip_nonspace_end)
qed

lemma strip_idem_end: "strip s = [] \<or> \<not> isspace (last (strip s))"
proof (cases "strip s = []")
  case True then show ?thesis by simp
next
  case False
  then have ne: "dropWhile isspace (rev (lstrip s)) \<noteq> []" by (simp add: strip_def rstrip_def)
  then have "\<not> isspace (hd (dropWhile isspace (rev (lstrip s))))" by (rule hd_dropWhile)
  with ne show ?thesis by (simp add: strip_def rstrip_def last_rev)
qed

subsection \<open>Searching for the connector\<close>

lemma alternative_at_bound: "alternative_at s i \<Longrightarrow> i + 2 \<le> length s"
  by (auto simp: alternative_at_def literal_ignorecase_def)

lemma match_at_bound: "CONNECTOR_PATTERN_match_at s i \<Longrightarrow> i + 2 \<le> length s"
  using alternative_at_bound [of s i] by (simp add: CONNECTOR_PATTERN_match_at_def)

lemma search_None_iff:
  "CONNECTOR_PATTERN_search s = None \<longleftrightarrow> (\<forall>i. \<not> CONNECTOR_PATTERN_match_at s i)"
proof
  assume "CONNECTOR_PATTERN_search s = None"
  then have a: "\<forall>i<Suc (length s). \<not> CONNECTOR_PATTERN_match_at s i"
    by (auto simp: CONNECTOR_PATTERN_search_def find_None_iff simp del: upt_Suc)
  show "\<forall>i. \<not> CONNECTOR_PATTERN_match_at s i"
  proof (intro allI notI)
    fix i assume m: "CONNECTOR_PATTERN_match_at s i"
    then have "i < Suc (length s)" using match_at_bound [OF m] by simp
    with a m show False by simp
  qed
next
  assume "\<forall>i. \<not> CONNECTOR_PATTERN_match_at s i"
  then show "CONNECTOR_PATTERN_search s = None"
    by (simp add: CONNECTOR_PATTERN_search_def find_None_iff del: upt_Suc)
qed

lemma search_Some_iff:
  "CONNECTOR_PATTERN_search s = Some i \<longleftrightarrow>
     CONNECTOR_PATTERN_match_at s i \<and> (\<forall>j<i. \<not> CONNECTOR_PATTERN_match_at s j)"
proof
  assume "CONNECTOR_PATTERN_search s = Some i"
  then obtain k where k: "k < Suc (length s)" "CONNECTOR_PATTERN_match_at s ([0..<Suc (length s)] ! k)"
     "i = [0..<Suc (length s)] ! k" "\<forall>j<k. \<not> CONNECTOR_PATTERN_match_at s ([0..<Suc (length s)] ! j)"
    by (auto simp: CONNECTOR_PATTERN_search_def find_Some_iff simp del: upt_Suc)
  from k(1) have ki: "[0..<Suc (length s)] ! k = k" by (simp del: upt_Suc)
  with k(3) have "i = k" by simp
  moreover have "\<forall>j<k. \<not> CONNECTOR_PATTERN_match_at s j"
  proof (intro allI impI)
    fix j assume "j < k"
    with k(1) k(4) have "\<not> CONNECTOR_PATTERN_match_at s ([0..<Suc (length s)] ! j)" "j < Suc (length s)" by auto
    then show "\<not> CONNECTOR_PATTERN_match_at s j" by (simp del: upt_Suc)
  qed
  ultimately show "CONNECTOR_PATTERN_match_at s i \<and> (\<forall>j<i. \<not> CONNECTOR_PATTERN_match_at s j)"
    using k(2) ki by simp
next
  assume a: "CONNECTOR_PATTERN_match_at s i \<and> (\<forall>j<i. \<not> CONNECTOR_PATTERN_match_at s j)"
  then have b: "i < Suc (length s)" using match_at_bound [of s i] by simp
  have "[0..<Suc (length s)] ! i = i" using b by (simp del: upt_Suc)
  moreover have "\<forall>j<i. \<not> CONNECTOR_PATTERN_match_at s ([0..<Suc (length s)] ! j)"
    using a b by (simp del: upt_Suc)
  ultimately show "CONNECTOR_PATTERN_search s = Some i"
    unfolding CONNECTOR_PATTERN_search_def find_Some_iff using a b
    by (intro exI [of _ i]) (simp del: upt_Suc)
qed

lemma search_bound: "CONNECTOR_PATTERN_search s = Some i \<Longrightarrow> i + 2 \<le> length s"
  using match_at_bound [of s i] by (simp add: search_Some_iff)

lemma search_eqI:
  assumes "\<And>i. CONNECTOR_PATTERN_match_at s i = CONNECTOR_PATTERN_match_at t i"
  shows "CONNECTOR_PATTERN_search s = CONNECTOR_PATTERN_search t"
proof (cases "CONNECTOR_PATTERN_search t")
  case None
  then have "\<forall>i. \<not> CONNECTOR_PATTERN_match_at t i" by (simp add: search_None_iff)
  then have "\<forall>i. \<not> CONNECTOR_PATTERN_match_at s i" using assms by simp
  then have "CONNECTOR_PATTERN_search s = None" by (simp add: search_None_iff)
  with None show ?thesis by simp
next
  case (Some i)
  then have "CONNECTOR_PATTERN_match_at t i \<and> (\<forall>j<i. \<not> CONNECTOR_PATTERN_match_at t j)"
    by (simp add: search_Some_iff)
  then have "CONNECTOR_PATTERN_match_at s i \<and> (\<forall>j<i. \<not> CONNECTOR_PATTERN_match_at s j)"
    using assms by simp
  then have "CONNECTOR_PATTERN_search s = Some i" by (simp add: search_Some_iff)
  with Some show ?thesis by simp
qed

lemma lower_eq_letter:
  assumes "97 \<le> (of_char l :: nat)" "(of_char l :: nat) \<le> 122"
  shows "lower c = l \<longleftrightarrow> (c = l \<or> (of_char c :: nat) + 32 = of_char l)"
proof -
  have c: "(of_char c :: nat) < 256" by simp
  have inj: "\<And>a b :: char. (of_char a :: nat) = of_char b \<longleftrightarrow> a = b" by simp
  show ?thesis
  proof (cases "(65 \<le> (of_char c :: nat) \<and> (of_char c :: nat) \<le> 90) \<or> (192 \<le> (of_char c :: nat) \<and> (of_char c :: nat) \<le> 214) \<or> (216 \<le> (of_char c :: nat) \<and> (of_char c :: nat) \<le> 222)")
    case True
    then have "lower c = char_of ((of_char c :: nat) + 32)" by (simp add: lower_def Let_def)
    moreover have "(of_char (char_of ((of_char c :: nat) + 32) :: char) :: nat) = of_char c + 32"
    proof -
      from True have "(of_char c :: nat) + 32 < 256" by auto
      then show ?thesis by (simp add: of_char_of)
    qed
    ultimately have "(of_char (lower c) :: nat) = of_char c + 32" by simp
    then have "lower c = l \<longleftrightarrow> (of_char c :: nat) + 32 = of_char l"
      using inj [of "lower c" l] by simp
    moreover have "c \<noteq> l" using True assms by auto
    ultimately show ?thesis by simp
  next
    case False
    then have "lower c = c" by (auto simp: lower_def Let_def)
    moreover have "(of_char c :: nat) + 32 \<noteq> of_char l" using False assms by auto
    ultimately show ?thesis by simp
  qed
qed

lemma of_char_capitals:
  "(of_char c :: nat) = 84 \<longleftrightarrow> c = CHR ''T''"
  "(of_char c :: nat) = 79 \<longleftrightarrow> c = CHR ''O''"
  "(of_char c :: nat) = 65 \<longleftrightarrow> c = CHR ''A''"
  "(of_char c :: nat) = 83 \<longleftrightarrow> c = CHR ''S''"
proof -
  have inj: "\<And>a b :: char. (of_char a :: nat) = of_char b \<longleftrightarrow> a = b" by simp
  show "(of_char c :: nat) = 84 \<longleftrightarrow> c = CHR ''T''"
    using inj [of c "CHR ''T''"] by simp
  show "(of_char c :: nat) = 79 \<longleftrightarrow> c = CHR ''O''"
    using inj [of c "CHR ''O''"] by simp
  show "(of_char c :: nat) = 65 \<longleftrightarrow> c = CHR ''A''"
    using inj [of c "CHR ''A''"] by simp
  show "(of_char c :: nat) = 83 \<longleftrightarrow> c = CHR ''S''"
    using inj [of c "CHR ''S''"] by simp
qed

lemma lower_letters:
  "lower c = CHR ''t'' \<longleftrightarrow> c = CHR ''t'' \<or> c = CHR ''T''"
  "lower c = CHR ''o'' \<longleftrightarrow> c = CHR ''o'' \<or> c = CHR ''O''"
  "lower c = CHR ''a'' \<longleftrightarrow> c = CHR ''a'' \<or> c = CHR ''A''"
  "lower c = CHR ''s'' \<longleftrightarrow> c = CHR ''s'' \<or> c = CHR ''S''"
  by (simp_all add: lower_eq_letter of_char_capitals)

lemma letters_are_word:
  "is_word CHR ''t''" "is_word CHR ''T''" "is_word CHR ''o''" "is_word CHR ''O''"
  "is_word CHR ''a''" "is_word CHR ''A''" "is_word CHR ''s''" "is_word CHR ''S''"
  by (simp_all add: is_word_def isalnum_def)

lemma take2_drop: "i + 2 \<le> length s \<Longrightarrow> take 2 (drop i s) = [s ! i, s ! (i + 1)]"
proof -
  assume a: "i + 2 \<le> length s"
  then have "drop i s = s ! i # drop (Suc i) s" by (simp add: Cons_nth_drop_Suc)
  moreover from a have "drop (Suc i) s = s ! Suc i # drop (Suc (Suc i)) s"
    by (simp add: Cons_nth_drop_Suc)
  ultimately show ?thesis by (simp add: numeral_2_eq_2)
qed

lemma alternative_at_iff:
  "alternative_at s i \<longleftrightarrow>
     i + 2 \<le> length s \<and> map lower (take 2 (drop i s)) \<in> {''to'', ''as''}"
proof (cases "i + 2 \<le> length s")
  case True
  then show ?thesis
    by (auto simp: alternative_at_def literal_ignorecase_def take2_drop lower_letters)
next
  case False
  then show ?thesis using alternative_at_bound [of s i] by auto
qed

lemma alternative_at_word:
  "alternative_at s i \<Longrightarrow> is_word (s ! i) \<and> is_word (s ! (i + 1))"
  by (auto simp: alternative_at_def literal_ignorecase_def letters_are_word)

lemma match_at_iff_connector_at: "CONNECTOR_PATTERN_match_at s i \<longleftrightarrow> connector_at s i"
proof (cases "alternative_at s i")
  case False
  then show ?thesis
    by (auto simp: CONNECTOR_PATTERN_match_at_def connector_at_def alternative_at_iff)
next
  case True
  then have b: "i + 2 \<le> length s" by (rule alternative_at_bound)
  have w: "is_word (s ! i)" "is_word (s ! (i + 1))"
    using alternative_at_word [OF True] by simp_all
  from b w have "word_boundary s i \<longleftrightarrow> (i = 0 \<or> \<not> is_word (s ! (i - 1)))"
    by (auto simp: word_boundary_def)
  moreover from b w have "word_boundary s (i + 2) \<longleftrightarrow> (i + 2 = length s \<or> \<not> is_word (s ! (i + 2)))"
    by (auto simp: word_boundary_def)
  ultimately show ?thesis using True
    by (simp add: CONNECTOR_PATTERN_match_at_def connector_at_def alternative_at_iff)
qed

lemma has_connector_iff: "has_connector s \<longleftrightarrow> (\<exists>i. connector_at s i)"
proof -
  have "connector_at s i \<Longrightarrow> i < length s" for i by (simp add: connector_at_def)
  then show ?thesis by (auto simp: has_connector_def list_ex_iff)
qed

lemma split_None: "CONNECTOR_PATTERN_search s = None \<Longrightarrow> CONNECTOR_PATTERN_split s = [s]"
  by (simp add: CONNECTOR_PATTERN_split_def)

lemma split_Some:
  "CONNECTOR_PATTERN_search s = Some i \<Longrightarrow> CONNECTOR_PATTERN_split s = [take i s, drop (i + 2) s]"
  by (simp add: CONNECTOR_PATTERN_split_def)

lemma convert_expression_no_match:
  "CONNECTOR_PATTERN_search e = None \<Longrightarrow>
   convert_expression ext e = Inl (ValueError ''Conversion target not provided'')"
  by (simp add: convert_expression_def split_None)

lemma strip_decomp:
  "\<exists>a b. l = a @ strip l @ b \<and> (\<forall>c\<in>set a. isspace c) \<and> (\<forall>c\<in>set b. isspace c)"
proof -
  let ?a = "takeWhile isspace l"
  let ?b = "rev (takeWhile isspace (rev (lstrip l)))"
  have "lstrip l = strip l @ ?b"
  proof -
    have "rev (takeWhile isspace (rev (lstrip l)) @ dropWhile isspace (rev (lstrip l)))
            = rev (rev (lstrip l))"
      by (simp only: takeWhile_dropWhile_id)
    then have "rev (dropWhile isspace (rev (lstrip l))) @ rev (takeWhile isspace (rev (lstrip l)))
            = lstrip l"
      by (simp only: rev_append rev_rev_ident)
    then show ?thesis by (simp add: strip_def rstrip_def)
  qed
  moreover have "l = ?a @ lstrip l" by (simp add: lstrip_def)
  ultimately have "l = ?a @ strip l @ ?b" by simp
  moreover have "\<forall>c\<in>set ?a. isspace c" by (auto dest: set_takeWhileD)
  moreover have "\<forall>c\<in>set ?b. isspace c" by (auto dest: set_takeWhileD)
  ultimately show ?thesis by blast
qed

lemma connector_at_embed:
  assumes c: "connector_at e j"
    and a: "a = [] \<or> \<not> is_word (last a)"
    and b: "b = [] \<or> \<not> is_word (hd b)"
  shows "connector_at (a @ e @ b) (length a + j)"
proof -
  from c have len: "j + 2 \<le> length e"
    and letters: "map lower (take 2 (drop j e)) \<in> {''to'', ''as''}"
    and before: "j = 0 \<or> \<not> is_word (e ! (j - 1))"
    and after: "j + 2 = length e \<or> \<not> is_word (e ! (j + 2))"
    by (simp_all add: connector_at_def)
  from len have 1: "take 2 (drop (length a + j) (a @ e @ b)) = take 2 (drop j e)"
    by simp
  have 2: "length a + j = 0 \<or> \<not> is_word ((a @ e @ b) ! (length a + j - 1))"
  proof (cases "j = 0")
    case True
    show ?thesis
    proof (cases "a = []")
      case True
      with \<open>j = 0\<close> show ?thesis by simp
    next
      case False
      then have "(a @ e @ b) ! (length a - 1) = last a"
        by (simp add: nth_append last_conv_nth)
      with a False True show ?thesis by simp
    qed
  next
    case False
    then have "length a + j - 1 = length a + (j - 1)" by simp
    then have "(a @ e @ b) ! (length a + j - 1) = (e @ b) ! (j - 1)"
      by (simp only: nth_append_length_plus)
    also have "\<dots> = e ! (j - 1)"
    proof -
      from len have "j - 1 < length e" by arith
      then show ?thesis by (simp add: nth_append)
    qed
    finally show ?thesis using before False by simp
  qed
  have 3: "length a + j + 2 = length (a @ e @ b) \<or> \<not> is_word ((a @ e @ b) ! (length a + j + 2))"
  proof (cases "j + 2 = length e")
    case True
    show ?thesis
    proof (cases "b = []")
      case True
      with \<open>j + 2 = length e\<close> show ?thesis by simp
    next
      case False
      have "(a @ e @ b) ! (length a + (j + 2)) = (e @ b) ! (j + 2)"
        by (simp only: nth_append_length_plus)
      also have "\<dots> = b ! 0" using True by (simp add: nth_append)
      also have "\<dots> = hd b" using False by (simp add: hd_conv_nth)
      finally have "(a @ e @ b) ! (length a + j + 2) = hd b" by (simp add: add.assoc)
      with b False show ?thesis by simp
    qed
  next
    case False
    with len have lt: "j + 2 < length e" by simp
    have "(a @ e @ b) ! (length a + (j + 2)) = (e @ b) ! (j + 2)"
      by (simp only: nth_append_length_plus)
    also have "\<dots> = e ! (j + 2)" using lt by (simp add: nth_append)
    finally have "(a @ e @ b) ! (length a + j + 2) = e ! (j + 2)" by (simp add: add.assoc)
    with after False show ?thesis by simp
  qed
  from len have 4: "length a + j + 2 \<le> length (a @ e @ b)" by simp
  show ?thesis
    unfolding connector_at_def using 1 2 3 4 letters by (simp only: simp_thms)
qed

lemma has_connector_strip: "has_connector (strip l) \<Longrightarrow> has_connector l"
proof -
  assume "has_connector (strip l)"
  then obtain j where j: "connector_at (strip l) j" by (auto simp: has_connector_iff)
  obtain a b where ab: "l = a @ strip l @ b" "\<forall>c\<in>set a. isspace c" "\<forall>c\<in>set b. isspace c"
    using strip_decomp by blast
  from ab(2) have "a = [] \<or> \<not> is_word (last a)" by (auto dest: isspace_not_word)
  moreover from ab(3) have "b = [] \<or> \<not> is_word (hd b)" by (auto dest: isspace_not_word)
  ultimately have "connector_at (a @ strip l @ b) (length a + j)"
    using j by (intro connector_at_embed)
  with ab(1) show ?thesis by (auto simp: has_connector_iff)
qed

declare ndigits.simps [simp del] digits_of.simps [simp del] least_scale.simps [simp del]

subsection \<open>Punctuation and the connector search\<close>

lemma punct_not_space: "c \<in> set ''.,;'' \<Longrightarrow> \<not> isspace c"
  by (auto simp: isspace_def)

lemma punct_not_word: "c \<in> set ''.,;'' \<Longrightarrow> \<not> is_word c"
  by (auto simp: is_word_def isalnum_def)

lemma rstrip_chars_append:
  "set ps \<subseteq> set cs \<Longrightarrow> rstrip_chars cs (t @ ps) = rstrip_chars cs t"
proof -
  assume "set ps \<subseteq> set cs"
  then have "dropWhile (\<lambda>c. c \<in> set cs) (rev ps @ rev t) = dropWhile (\<lambda>c. c \<in> set cs) (rev t)"
    by (intro dropWhile_append2) auto
  then show ?thesis by (simp add: rstrip_chars_def)
qed

lemma rstrip_chars_id: "t = [] \<or> last t \<notin> set cs \<Longrightarrow> rstrip_chars cs t = t"
  by (cases t rule: rev_cases) (simp_all add: rstrip_chars_def)

lemma rstrip_chars_all: "set t \<subseteq> set cs \<Longrightarrow> rstrip_chars cs t = []"
  using rstrip_chars_append [of t cs "[]"] by (simp add: rstrip_chars_def)

lemma strip_nonempty: "t \<noteq> [] \<Longrightarrow> \<not> isspace (last t) \<Longrightarrow> strip t \<noteq> []"
proof -
  assume a: "t \<noteq> []" "\<not> isspace (last t)"
  then have "strip t = lstrip t" by (simp add: strip_nonspace_end)
  moreover from a have "\<exists>c\<in>set t. \<not> isspace c" using last_in_set by blast
  then have "dropWhile isspace t \<noteq> []" by (simp add: dropWhile_eq_Nil_conv)
  ultimately show ?thesis by (simp add: lstrip_def)
qed

lemma connector_at_append:
  assumes "\<forall>c\<in>set ps. \<not> is_word c"
  shows "connector_at (e @ ps) i \<longleftrightarrow> connector_at e i"
proof
  assume c: "connector_at e i"
  from assms have "ps = [] \<or> \<not> is_word (hd ps)" by (cases ps) auto
  with c have "connector_at ([] @ e @ ps) (length ([] :: string) + i)"
    by (intro connector_at_embed) simp_all
  then show "connector_at (e @ ps) i" by simp
next
  assume c: "connector_at (e @ ps) i"
  then have alt: "alternative_at (e @ ps) i"
    by (simp add: alternative_at_iff connector_at_def)
  have w: "is_word ((e @ ps) ! (i + 1))" using alternative_at_word [OF alt] by simp
  have b: "i + 2 \<le> length (e @ ps)" using alt by (rule alternative_at_bound)
  have in_e: "i + 1 < length e"
  proof (rule ccontr)
    assume "\<not> i + 1 < length e"
    with b have "(e @ ps) ! (i + 1) \<in> set ps" by (simp add: nth_append)
    with assms w show False by blast
  qed
  then have 1: "take 2 (drop i (e @ ps)) = take 2 (drop i e)" by simp
  from in_e have "i - 1 < length e" by arith
  then have 2: "(e @ ps) ! (i - 1) = e ! (i - 1)" by (simp add: nth_append)
  have 3: "i + 2 = length e \<or> \<not> is_word (e ! (i + 2))"
  proof (cases "i + 2 = length e")
    case True then show ?thesis by simp
  next
    case False
    with in_e have lt: "i + 2 < length e" by simp
    then have "(e @ ps) ! (i + 2) = e ! (i + 2)" by (simp add: nth_append)
    moreover from lt have "i + 2 \<noteq> length (e @ ps)" by simp
    ultimately show ?thesis using c by (simp add: connector_at_def)
  qed
  from in_e have 4: "i + 2 \<le> length e" by simp
  from c have "map lower (take 2 (drop i (e @ ps))) \<in> {''to'', ''as''}"
    and "i = 0 \<or> \<not> is_word ((e @ ps) ! (i - 1))" by (simp_all add: connector_at_def)
  with 1 2 3 4 show "connector_at e i" unfolding connector_at_def by (simp only: simp_thms)
qed

lemma search_append:
  "\<forall>c\<in>set ps. \<not> is_word c \<Longrightarrow> CONNECTOR_PATTERN_search (e @ ps) = CONNECTOR_PATTERN_search e"
  by (rule search_eqI) (simp add: match_at_iff_connector_at connector_at_append)

lemma split_append_Some:
  assumes "\<forall>c\<in>set ps. \<not> is_word c" and "CONNECTOR_PATTERN_search e = Some i"
  shows "CONNECTOR_PATTERN_split (e @ ps) = [take i e, drop (i + 2) e @ ps]"
proof -
  from assms(2) have "i + 2 \<le> length e" by (rule search_bound)
  moreover from assms have "CONNECTOR_PATTERN_search (e @ ps) = Some i" by (simp add: search_append)
  ultimately show ?thesis by (simp add: split_Some)
qed

lemma output_append_punct:
  assumes ps: "set ps \<subseteq> set ''.,;''" and e: "e = [] \<or> \<not> isspace (last e)"
  shows "output_of (convert_expression ext (e @ ps)) = output_of (convert_expression ext e)"
proof (cases "CONNECTOR_PATTERN_search e")
  case None
  from ps have nw: "\<forall>c\<in>set ps. \<not> is_word c" using punct_not_word by blast
  with None have "CONNECTOR_PATTERN_search (e @ ps) = None" by (simp add: search_append)
  with None show ?thesis by (simp add: convert_expression_no_match)
next
  case (Some i)
  from ps have nw: "\<forall>c\<in>set ps. \<not> is_word c" using punct_not_word by blast
  from ps have ns: "\<forall>c\<in>set ps. \<not> isspace c" using punct_not_space by blast
  define sp tp where "sp = take i e" and "tp = drop (i + 2) e"
  from Some have s1: "CONNECTOR_PATTERN_split e = [sp, tp]"
    unfolding sp_def tp_def by (rule split_Some)
  from nw Some have s2: "CONNECTOR_PATTERN_split (e @ ps) = [sp, tp @ ps]"
    unfolding sp_def tp_def by (rule split_append_Some)
  show ?thesis
  proof (cases "tp = []")
    case True
    have l: "convert_expression ext e = Inl (ValueError ''Incomplete conversion expression'')"
      using True by (simp add: convert_expression_def s1 strip_all_space)
    have "strip ps = ps" using strip_append_punct [of "[]" ps] ns by (simp add: strip_all_space)
    moreover have "rstrip_chars ''.,;'' ps = []" using ps by (rule rstrip_chars_all)
    ultimately have "output_of (convert_expression ext (e @ ps)) = ''''"
      using True
      by (simp add: convert_expression_def s2 Let_def
            split: sum.splits option.splits prod.splits)
    with l show ?thesis by simp
  next
    case False
    then have lt: "i + 2 < length e" by (simp add: tp_def)
    then have "e \<noteq> []" by auto
    with e have "\<not> isspace (last e)" by simp
    with lt have tp_end: "\<not> isspace (last tp)" by (simp add: tp_def)
    with False have st: "strip (tp @ ps) = strip tp @ ps"
      by (intro strip_append_punct ns) simp
    from False tp_end have ne: "strip tp \<noteq> []" by (rule strip_nonempty)
    from ps have rs: "rstrip_chars ''.,;'' (strip tp @ ps) = rstrip_chars ''.,;'' (strip tp)"
      by (rule rstrip_chars_append)
    have "convert_expression ext (e @ ps) = convert_expression ext e"
      using ne
      by (simp add: convert_expression_def s1 s2 st rs Let_def
            split: sum.splits option.splits prod.splits)
    then show ?thesis by simp
  qed
qed

lemma output_line_append_punct:
  assumes ps: "set ps \<subseteq> set ''.,;''" and body: "body = [] \<or> \<not> isspace (last body)"
    and ws: "\<forall>c\<in>set ws. isspace c"
  shows "output_line ext (body @ ps @ ws) = output_line ext (body @ ws)"
proof -
  from ps have ns: "\<forall>c\<in>set ps. \<not> isspace c" using punct_not_space by blast
  have "strip (body @ ps @ ws) = strip ((body @ ps) @ ws)" by simp
  also have "\<dots> = strip (body @ ps)" using ws by (rule strip_append_space)
  also have "\<dots> = strip body @ ps" using body ns by (rule strip_append_punct)
  finally have l: "strip (body @ ps @ ws) = strip body @ ps" .
  have r: "strip (body @ ws) = strip body" using ws by (rule strip_append_space)
  have "convert_expression ext [] = Inl (ValueError ''Conversion target not provided'')"
    by (simp add: convert_expression_no_match search_None_iff match_at_iff_connector_at
          connector_at_def)
  then have empty: "output_of (convert_expression ext []) = ''''" by simp
  have "output_of (convert_expression ext (strip body @ ps))
          = output_of (convert_expression ext (strip body))"
    using ps strip_idem_end by (rule output_append_punct)
  with empty show ?thesis
    by (cases "strip body = []"; cases "ps = []") (simp_all add: output_line_def l r)
qed

lemma convert_expression_unit_suffix:
  assumes "set ps \<subseteq> set ''.,;''"
  shows "convert_expression (ext\<lparr>parse_input := \<lambda>text. with_unit_suffix ps (parse_input ext text)\<rparr>) e
           = convert_expression ext e"
  by (simp add: convert_expression_def with_unit_suffix_def Let_def rstrip_chars_append [OF assms]
        split: list.splits sum.splits option.splits prod.splits)

subsection \<open>Lines whose unit texts are punctuation only\<close>

lemma render_results_single: "render_results ext [line] = [output_line ext line]"
  by (simp add: render_results_map)

lemma blank_target_punct:
  assumes "CONNECTOR_PATTERN_split e = [source_part, target_part]"
    and "set (strip target_part) \<subseteq> set ''.,;''"
  shows "output_of (convert_expression ext e) = ''''"
proof -
  from assms(2) have "rstrip_chars ''.,;'' (strip target_part) = []" by (rule rstrip_chars_all)
  then show ?thesis
    by (simp add: convert_expression_def assms(1) Let_def
          split: sum.splits option.splits prod.splits)
qed

lemma blank_unit_punct:
  assumes "CONNECTOR_PATTERN_split e = [source_part, target_part]"
    and "parse_input ext (strip source_part) = Inr (value_text, Some parsed_unit)"
    and "set parsed_unit \<subseteq> set ''.,;''"
  shows "output_of (convert_expression ext e) = ''''"
proof -
  from assms(3) have "rstrip_chars ''.,;'' parsed_unit = []" by (rule rstrip_chars_all)
  then show ?thesis
    by (simp add: convert_expression_def assms(1,2) Let_def split: option.splits)
qed

lemma convert_expression_empty:
  "convert_expression ext [] = Inl (ValueError ''Conversion target not provided'')"
  by (simp add: convert_expression_no_match search_None_iff match_at_iff_connector_at
        connector_at_def)

subsection \<open>When the evaluation of a line succeeds\<close>

text \<open>
  \<open>_convert_expression\<close> returns a value exactly when every step succeeds; in every
  other case it raises.
\<close>

lemma convert_expression_succeeds_iff:
  "convert_expression ext e = Inr r \<longleftrightarrow>
     (\<exists>i value_text parsed_unit numeric_value.
        CONNECTOR_PATTERN_search e = Some i \<and>
        strip (take i e) \<noteq> [] \<and> strip (drop (i + 2) e) \<noteq> [] \<and>
        parse_input ext (strip (take i e)) = Inr (Some value_text, Some parsed_unit) \<and>
        value_text \<noteq> [] \<and>
        rstrip_chars ''.,;'' parsed_unit \<noteq> [] \<and>
        rstrip_chars ''.,;'' (strip (drop (i + 2) e)) \<noteq> [] \<and>
        py_float ext value_text = Some numeric_value \<and>
        convert ext numeric_value (rstrip_chars ''.,;'' parsed_unit)
          (rstrip_chars ''.,;'' (strip (drop (i + 2) e))) = Inr (Some r))"
proof (cases "CONNECTOR_PATTERN_search e")
  case None
  then show ?thesis by (simp add: convert_expression_no_match)
next
  case (Some i)
  define sp tp where "sp = take i e" and "tp = drop (i + 2) e"
  from Some have s: "CONNECTOR_PATTERN_split e = [sp, tp]"
    unfolding sp_def tp_def by (rule split_Some)
  have "convert_expression ext e = Inr r \<longleftrightarrow>
     (\<exists>value_text parsed_unit numeric_value.
        strip sp \<noteq> [] \<and> strip tp \<noteq> [] \<and>
        parse_input ext (strip sp) = Inr (Some value_text, Some parsed_unit) \<and>
        value_text \<noteq> [] \<and>
        rstrip_chars ''.,;'' parsed_unit \<noteq> [] \<and>
        rstrip_chars ''.,;'' (strip tp) \<noteq> [] \<and>
        py_float ext value_text = Some numeric_value \<and>
        convert ext numeric_value (rstrip_chars ''.,;'' parsed_unit)
          (rstrip_chars ''.,;'' (strip tp)) = Inr (Some r))"
    by (auto simp: convert_expression_def s Let_def
          split: sum.splits option.splits prod.splits)
  with Some show ?thesis by (simp add: sp_def tp_def)
qed

subsection \<open>Line breaks\<close>

lemma linebreak_chars:
  "is_linebreak CHR 0x0A" "is_linebreak CHR 0x0D"
  by (simp_all add: is_linebreak_def)

lemma CR_neq_LF: "CHR 0x0D \<noteq> CHR 0x0A"
  by simp

lemma splitlines_from_line:
  "\<forall>c\<in>set l. \<not> is_linebreak c \<Longrightarrow> splitlines_from cur (l @ rest) = splitlines_from (cur @ l) rest"
proof (induction l arbitrary: cur)
  case Nil
  show ?case by simp
next
  case (Cons c l)
  then have "\<not> is_linebreak c" and rest: "\<forall>c\<in>set l. \<not> is_linebreak c" by simp_all
  then have "c \<noteq> CHR 0x0D" using linebreak_chars(2) by auto
  with \<open>\<not> is_linebreak c\<close> have "splitlines_from cur ((c # l) @ rest) = splitlines_from (cur @ [c]) (l @ rest)"
    by simp
  also have "\<dots> = splitlines_from ((cur @ [c]) @ l) rest" using rest by (rule Cons.IH)
  finally show ?case by simp
qed

lemma splitlines_LF:
  "\<forall>c\<in>set l. \<not> is_linebreak c \<Longrightarrow> splitlines (l @ [CHR 0x0A] @ rest) = l # splitlines rest"
  by (simp add: splitlines_def splitlines_from_line linebreak_chars)

lemma splitlines_CRLF:
  "\<forall>c\<in>set l. \<not> is_linebreak c \<Longrightarrow>
     splitlines (l @ [CHR 0x0D, CHR 0x0A] @ rest) = l # splitlines rest"
  by (simp add: splitlines_def splitlines_from_line)

lemma splitlines_CR:
  "\<forall>c\<in>set l. \<not> is_linebreak c \<Longrightarrow> rest = [] \<or> hd rest \<noteq> CHR 0x0A \<Longrightarrow>
     splitlines (l @ [CHR 0x0D] @ rest) = l # splitlines rest"
  by (cases rest) (auto simp: splitlines_def splitlines_from_line)

lemma splitlines_last:
  "\<forall>c\<in>set l. \<not> is_linebreak c \<Longrightarrow> l \<noteq> [] \<Longrightarrow> splitlines l = [l]"
  using splitlines_from_line [of l "[]" "[]"] by (simp add: splitlines_def)

lemma render_results_Cons:
  "render_results ext (l # ls) = render_results ext [l] @ render_results ext ls"
  by (simp add: render_results_map)

subsection \<open>The last character of a formatted number\<close>














subsection \<open>The significant digits of a formatted number\<close>





















subsection \<open>The model on concrete lines\<close>

lemmas string_defs = strip_def lstrip_def rstrip_def isspace_def rstrip_chars_def

lemmas connector_defs = CONNECTOR_PATTERN_split_def CONNECTOR_PATTERN_search_def
  CONNECTOR_PATTERN_match_at_def word_boundary_def alternative_at_def literal_ignorecase_def
  is_word_def isalnum_def

lemmas example_defs = example_externals_def example_parse_input_def example_convert_def

lemmas format_defs = format_float_def general_notation_def FORMAT_SPEC_def significant_digits_def
  decimal_exponent_def round_half_even_def endswith_def strip_zeros_def group_thousands_def
  exponent_text_def digit_char_def ndigits.simps digits_of.simps
  least_scale.simps

lemma format_304_8: "format_value (Finite False 5362098306337997 (- 44)) = ''304.8''"
  by (simp add: format_defs Let_def)

lemma example_12_inches:
  "convert_expression example_externals ''12 inches to mm''
     = Inr (Finite False 5362098306337997 (- 44))"
  by (simp add: convert_expression_def string_defs connector_defs example_defs Let_def)

lemma example_bad_input:
  "convert_expression example_externals ''bad input''
     = Inl (ValueError ''Conversion target not provided'')"
  by (simp add: convert_expression_def string_defs connector_defs example_defs Let_def)

lemma strip_12_inches: "strip ''12 inches to mm'' = ''12 inches to mm''"
  by (simp add: string_defs)

lemma strip_bad_input: "strip ''bad input'' = ''bad input''"
  by (simp add: string_defs)

lemma example_render:
  "render_results example_externals [''12 inches to mm'', '''', ''bad input'']
     = [''304.8'', '''', '''']"
  by (simp add: render_results_map output_line_def example_12_inches example_bad_input
        format_304_8 strip_12_inches strip_bad_input del: format_value.simps)
     (simp add: string_defs)

lemma render_results_Nil: "render_results ext [] = []"
  by (simp add: render_results_def)

lemma example_failures:
  "convert_expression example_externals ''to mm''
     = Inl (ValueError ''Incomplete conversion expression'')"
  "convert_expression example_externals ''12 to mm''
     = Inl (ValueError ''Missing value or source unit'')"
  "convert_expression example_externals ''x inches to mm''
     = Inl (ValueError ''Invalid numeric value'')"
  "convert_expression example_externals ''12 inches to nothing''
     = Inl (ValueError ''Conversion yielded no result'')"
  "convert_expression example_externals ''12 inches to crash'' = Inl OtherException"
  "convert_expression example_externals ''12 apples to mm'' = Inl UnitTypeNameNotFound"
  by (simp_all add: convert_expression_def string_defs connector_defs example_defs Let_def)

lemma example_nan:
  "convert_expression example_externals ''12 inches to nan'' = Inr NaN"
  by (simp add: convert_expression_def string_defs connector_defs example_defs Let_def)

lemma example_render_12_inches:
  "render_results example_externals [''12 inches to mm''] = [''304.8'']"
  by (simp add: render_results_map output_line_def example_12_inches format_304_8
        strip_12_inches del: format_value.simps)

lemma example_render_failures:
  "render_results example_externals
     [''bad input'', ''to mm'', ''12 to mm'', ''x inches to mm'', ''12 inches to nothing'',
      ''12 inches to crash'']
   = ['''', '''', '''', '''', '''', '''']"
proof -
  have "strip ''bad input'' = ''bad input''" "strip ''to mm'' = ''to mm''"
    "strip ''12 to mm'' = ''12 to mm''" "strip ''x inches to mm'' = ''x inches to mm''"
    "strip ''12 inches to nothing'' = ''12 inches to nothing''"
    "strip ''12 inches to crash'' = ''12 inches to crash''"
    by (simp_all add: string_defs)
  then show ?thesis
    by (simp add: render_results_map output_line_def example_failures example_bad_input)
qed

lemma format_examples:
  "format_value (Finite False 1234567 0) = ''1,234,567''"
  "format_value (Finite False 2308685832600525 (- 47)) = ''16.4041994751''"
  "format_value (Finite False 1 50) = ''1.12589990684e+15''"
  "format_value (Finite False 1 (- 20)) = ''9.53674316406e-07''"
  "format_value (Finite False 1000000000000 0) = ''1e+12''"
  "format_value (Finite False 999999999999 0) = ''999,999,999,999''"
  "format_value (Finite True 5 (- 1)) = ''-2.5''"
  "format_value (Finite True 0 0) = ''-0''"
  by (simp_all add: format_defs Let_def)

section \<open>The properties\<close>

subsection \<open>C1: one output line per input line\<close>

text \<open>
  C1. For every sequence of input lines, \<open>render_results\<close> returns a sequence of the same
  length, in the same order, and the \<open>i\<close>-th output is what \<open>render_results\<close> returns for
  the \<open>i\<close>-th line alone: it depends on no other line. Blank lines count.
\<close>

theorem C1_render_results_positional:
  "length (render_results ext lines) = length lines \<and>
   (\<forall>i<length lines. render_results ext lines ! i = hd (render_results ext [lines ! i]))"
  by (simp add: render_results_map)

theorem C1_render_results_positional_witness:
  "length (render_results example_externals [''12 inches to mm'', '''', ''bad input'']) = 3 \<and>
   render_results example_externals [''12 inches to mm'', '''', ''bad input''] ! 0
     = hd (render_results example_externals [''12 inches to mm'']) \<and>
   render_results example_externals [''12 inches to mm'', '''', ''bad input''] ! 0 = ''304.8''"
  using C1_render_results_positional
          [of example_externals "[''12 inches to mm'', '''', ''bad input'']"]
  by (simp add: example_render All_less_Suc eval_nat_numeral)

subsection \<open>C2: failures are caught per line\<close>

text \<open>
  C2. \<open>render_results\<close> returns for every list of lines: the loop is a structural
  recursion over the list and every exception of \<open>_convert_expression\<close> is matched by
  one of its \<open>except\<close> clauses. When the evaluation of a line raises, whatever the
  exception (a missing connector, an empty half, a missing value or source unit, an
  invalid numeric literal, an absent result, \<open>UnitTypeNameNotFound\<close>, or another
  exception of the parser or the converter), that line gives \<open>""\<close> and the lines
  before and after it are rendered as they are without it. By
  \<open>convert_expression_succeeds_iff\<close> the evaluation raises unless every step succeeds.
\<close>

theorem C2_failures_become_blank:
  assumes "convert_expression ext (strip line) = Inl exc"
  shows "render_results ext (before @ line # after)
           = render_results ext before @ [''''] @ render_results ext after"
  using assms by (simp add: render_results_map output_line_def)

theorem C2_failures_become_blank_witness:
  "render_results example_externals
     ([''bad input'', ''to mm'', ''12 to mm'', ''x inches to mm'', ''12 inches to nothing'',
       ''12 inches to crash''] @ ''12 apples to mm'' # [''12 inches to mm''])
   = ['''', '''', '''', '''', '''', '''', '''', ''304.8'']"
proof -
  have "strip ''12 apples to mm'' = ''12 apples to mm''" by (simp add: string_defs)
  then have "convert_expression example_externals (strip ''12 apples to mm'')
               = Inl UnitTypeNameNotFound"
    by (simp add: example_failures)
  from C2_failures_become_blank
         [OF this,
          where before = "[''bad input'', ''to mm'', ''12 to mm'', ''x inches to mm'',
                           ''12 inches to nothing'', ''12 inches to crash'']"
            and after = "[''12 inches to mm'']"]
  show ?thesis
    by (simp only: example_render_failures example_render_12_inches append.simps)
qed

subsection \<open>C3: the split at the first connector\<close>

text \<open>
  C3. The connector is the whole word \<open>to\<close> or \<open>as\<close>, in any case. When it occurs in a
  line at position \<open>i\<close> and at no position before, the pattern splits the line into
  exactly two parts: the text before position \<open>i\<close> and all the text after the
  connector. Later occurrences of \<open>to\<close> or \<open>as\<close> stay in the second part.
\<close>

theorem C3_split_at_first_connector:
  "connector_at s i \<Longrightarrow> \<forall>j<i. \<not> connector_at s j \<Longrightarrow>
     CONNECTOR_PATTERN_split s = [take i s, drop (i + 2) s]"
  by (simp add: split_Some search_Some_iff match_at_iff_connector_at)

theorem C3_split_at_first_connector_witness:
  "CONNECTOR_PATTERN_split ''5 m To ft to as'' = [''5 m '', '' ft to as'']"
proof -
  have first: "connector_at ''5 m To ft to as'' 4"
    by (simp add: connector_at_def lower_letters is_word_def isalnum_def)
  have none_before: "\<forall>j<4. \<not> connector_at ''5 m To ft to as'' j"
    by (simp add: connector_at_def lower_letters is_word_def isalnum_def All_less_Suc
          eval_nat_numeral)
  show ?thesis
    using C3_split_at_first_connector [OF first none_before] by simp
qed

subsection \<open>C4: a line without a connector\<close>

text \<open>
  C4. A line that is not empty after trimming and contains no whole-word occurrence of
  \<open>to\<close> or \<open>as\<close>, in any case, gives the output line \<open>""\<close>.
\<close>

theorem C4_no_connector_blank:
  assumes "i < length lines" and "strip (lines ! i) \<noteq> []" and "\<not> has_connector (lines ! i)"
  shows "render_results ext lines ! i = ''''"
proof -
  from assms(3) have "\<not> has_connector (strip (lines ! i))" using has_connector_strip by blast
  then have "CONNECTOR_PATTERN_search (strip (lines ! i)) = None"
    by (simp add: search_None_iff match_at_iff_connector_at has_connector_iff)
  then have "output_line ext (lines ! i) = ''''"
    by (simp add: output_line_def convert_expression_no_match)
  with assms(1) show ?thesis by (simp add: render_results_map)
qed

theorem C4_no_connector_blank_witness:
  "render_results example_externals [''12 inches to mm'', ''bad input''] ! 1 = ''''"
proof -
  have 1: "(1::nat) < length [''12 inches to mm'', ''bad input'']" by simp
  have 2: "strip ([''12 inches to mm'', ''bad input''] ! 1) \<noteq> []"
    by (simp add: strip_bad_input)
  have 3: "\<not> has_connector ([''12 inches to mm'', ''bad input''] ! 1)"
    by (simp add: has_connector_def connector_at_def lower_letters is_word_def isalnum_def upt_rec)
  show ?thesis
    using C4_no_connector_blank [OF 1 2 3, of example_externals] by simp
qed

subsection \<open>C5: the format of a finite result\<close>



subsection \<open>C6: NaN and the infinities\<close>

text \<open>
  C6. When the evaluation of a line yields NaN or an infinite value, the output line is
  \<open>nan\<close>, \<open>inf\<close> or \<open>-inf\<close>: the text \<open>str\<close> gives, not a rendering of the digit
  formatter. The line is a result like any other: the lines around it are unaffected.
\<close>

theorem C6_nan_and_infinity:
  assumes "convert_expression ext (strip line) = Inr val" and "isnan val \<or> isinf val"
  shows "render_results ext (before @ line # after)
           = render_results ext before
             @ [if isnan val then ''nan'' else if val = Infinite True then ''-inf'' else ''inf'']
             @ render_results ext after"
proof -
  from assms(1) have "strip line \<noteq> []" by (auto simp: convert_expression_empty)
  with assms(1) have "output_line ext line = format_value val" by (simp add: output_line_def)
  moreover from assms(2)
  have "format_value val
          = (if isnan val then ''nan'' else if val = Infinite True then ''-inf'' else ''inf'')"
    by (cases val) auto
  ultimately show ?thesis by (simp add: render_results_map)
qed

theorem C6_nan_and_infinity_witness:
  "render_results example_externals ([''12 inches to mm''] @ ''12 inches to nan'' # [])
     = [''304.8'', ''nan'']"
proof -
  have "strip ''12 inches to nan'' = ''12 inches to nan''" by (simp add: string_defs)
  then have 1: "convert_expression example_externals (strip ''12 inches to nan'') = Inr NaN"
    by (simp add: example_nan)
  have 2: "isnan NaN \<or> isinf NaN" by simp
  from C6_nan_and_infinity
         [OF 1 2, where before = "[''12 inches to mm'']" and after = "[]"]
  show ?thesis
    by (simp only: example_render_12_inches render_results_Nil isnan.simps if_True append.simps)
qed

subsection \<open>C7: trailing punctuation is ignored\<close>

text \<open>
  C7. Let \<open>ps\<close> consist of periods, commas and semicolons. Appending \<open>ps\<close> to the text
  of a line (before its trailing whitespace, if any) does not change the output line:
  \<open>"12 inches to mm."\<close> gives what \<open>"12 inches to mm"\<close> gives. Appending \<open>ps\<close> to the
  source unit that the parser returns does not change any output line either.
\<close>

theorem C7_trailing_punctuation_ignored:
  assumes "set ps \<subseteq> set ''.,;''"
  shows "((body = [] \<or> \<not> isspace (last body)) \<and> (\<forall>c\<in>set ws. isspace c) \<longrightarrow>
            render_results ext [body @ ps @ ws] = render_results ext [body @ ws]) \<and>
         render_results
           (ext\<lparr>parse_input := \<lambda>text. with_unit_suffix ps (parse_input ext text)\<rparr>) lines
           = render_results ext lines"
proof (intro conjI impI)
  assume "(body = [] \<or> \<not> isspace (last body)) \<and> (\<forall>c\<in>set ws. isspace c)"
  with assms show "render_results ext [body @ ps @ ws] = render_results ext [body @ ws]"
    by (simp add: render_results_map output_line_append_punct)
next
  from assms show "render_results
      (ext\<lparr>parse_input := \<lambda>text. with_unit_suffix ps (parse_input ext text)\<rparr>) lines
      = render_results ext lines"
    by (simp add: render_results_map output_line_def convert_expression_unit_suffix)
qed

theorem C7_trailing_punctuation_ignored_witness:
  "render_results example_externals [''12 inches to mm.'']
     = render_results example_externals [''12 inches to mm''] \<and>
   render_results example_externals [''12 inches to mm.''] = [''304.8''] \<and>
   render_results
     (example_externals\<lparr>parse_input :=
        \<lambda>text. with_unit_suffix ''.'' (parse_input example_externals text)\<rparr>)
     [''12 inches to mm''] = [''304.8'']"
proof -
  have ps: "set ''.'' \<subseteq> set ''.,;''" by simp
  have body: "(''12 inches to mm'' = [] \<or> \<not> isspace (last ''12 inches to mm''))
                \<and> (\<forall>c\<in>set ''''. isspace c)"
    by (simp add: isspace_def)
  from C7_trailing_punctuation_ignored [OF ps, of "''12 inches to mm''" "''''"
        example_externals "[''12 inches to mm'']"] body
  show ?thesis by (simp add: example_render_12_inches)
qed

subsection \<open>C8: blank lines\<close>

text \<open>
  C8. A line that is empty or made of whitespace only gives the output line \<open>""\<close>,
  wherever it stands in the input.
\<close>

theorem C8_blank_line_blank:
  "i < length lines \<Longrightarrow> \<forall>c\<in>set (lines ! i). isspace c \<Longrightarrow> render_results ext lines ! i = ''''"
  by (simp add: render_results_map output_line_def strip_all_space)

theorem C8_blank_line_blank_witness:
  "render_results example_externals [''12 inches to mm'', [CHR '' '', CHR 0x09], ''''] ! 1 = ''''"
proof -
  have 1: "(1::nat) < length [''12 inches to mm'', [CHR '' '', CHR 0x09], '''']" by simp
  have 2: "\<forall>c\<in>set ([''12 inches to mm'', [CHR '' '', CHR 0x09], ''''] ! 1). isspace c"
    by (simp add: isspace_def)
  show ?thesis
    using C8_blank_line_blank [OF 1 2, of example_externals] by simp
qed

subsection \<open>C9: the full-text entry point\<close>

text \<open>
  C9. \<open>update_results\<close> is \<open>render_results\<close> on the lines of the text. A line is ended
  by \<open>"\n"\<close>, by \<open>"\r\n"\<close> or by \<open>"\r"\<close>; a last line without a line break counts when
  it is not empty; the empty text has no lines and gives the empty output sequence.
\<close>

theorem C9_update_results_splitlines:
  "update_results ext text = render_results ext (splitlines text) \<and>
   update_results ext '''' = [] \<and>
   ((\<forall>c\<in>set line. \<not> is_linebreak c) \<longrightarrow>
      update_results ext (line @ [CHR 0x0A] @ rest)
        = render_results ext [line] @ update_results ext rest \<and>
      update_results ext (line @ [CHR 0x0D, CHR 0x0A] @ rest)
        = render_results ext [line] @ update_results ext rest \<and>
      (rest = [] \<or> hd rest \<noteq> CHR 0x0A \<longrightarrow>
         update_results ext (line @ [CHR 0x0D] @ rest)
           = render_results ext [line] @ update_results ext rest) \<and>
      (line \<noteq> [] \<longrightarrow> update_results ext line = render_results ext [line]))"
proof -
  have 1: "update_results ext text = render_results ext (splitlines text)"
    by (simp add: update_results_def)
  have 2: "update_results ext '''' = []"
    by (simp add: update_results_def splitlines_def render_results_def)
  have 3: "update_results ext (line @ [CHR 0x0A] @ rest)
        = render_results ext [line] @ update_results ext rest"
    if "\<forall>c\<in>set line. \<not> is_linebreak c"
    unfolding update_results_def splitlines_LF [OF that] by (rule render_results_Cons)
  have 4: "update_results ext (line @ [CHR 0x0D, CHR 0x0A] @ rest)
        = render_results ext [line] @ update_results ext rest"
    if "\<forall>c\<in>set line. \<not> is_linebreak c"
    unfolding update_results_def splitlines_CRLF [OF that] by (rule render_results_Cons)
  have 5: "update_results ext (line @ [CHR 0x0D] @ rest)
        = render_results ext [line] @ update_results ext rest"
    if "\<forall>c\<in>set line. \<not> is_linebreak c" and "rest = [] \<or> hd rest \<noteq> CHR 0x0A"
    unfolding update_results_def splitlines_CR [OF that] by (rule render_results_Cons)
  have 6: "update_results ext line = render_results ext [line]"
    if "\<forall>c\<in>set line. \<not> is_linebreak c" and "line \<noteq> []"
    unfolding update_results_def splitlines_last [OF that] by (rule refl)
  from 1 2 3 4 5 6 show ?thesis by blast
qed

theorem C9_update_results_splitlines_witness:
  "update_results example_externals (''12 inches to mm'' @ [CHR 0x0D, CHR 0x0A] @ ''bad input'')
     = [''304.8'', '''']"
proof -
  have nb: "\<forall>c\<in>set ''12 inches to mm''. \<not> is_linebreak c" by (simp add: is_linebreak_def)
  have nb2: "\<forall>c\<in>set ''bad input''. \<not> is_linebreak c" by (simp add: is_linebreak_def)
  have "update_results example_externals
          (''12 inches to mm'' @ [CHR 0x0D, CHR 0x0A] @ ''bad input'')
     = render_results example_externals [''12 inches to mm'']
       @ update_results example_externals ''bad input''"
    using C9_update_results_splitlines
            [of example_externals "[]" "''12 inches to mm''" "''bad input''"] nb
    by blast
  moreover have "update_results example_externals ''bad input''
                   = render_results example_externals [''bad input'']"
    using C9_update_results_splitlines [of example_externals "[]" "''bad input''" "[]"] nb2
    by blast
  moreover have "render_results example_externals [''bad input''] = ['''']"
    by (simp add: render_results_map output_line_def example_bad_input strip_bad_input)
  ultimately show ?thesis by (simp add: example_render_12_inches)
qed

subsection \<open>C10: every trailing punctuation mark is stripped\<close>

text \<open>
  C10. The punctuation stripping removes the whole run of trailing periods, commas and
  semicolons, in any number and order, not only one mark. So a target text, or a
  source unit returned by the parser, that consists of such marks only is empty after
  the stripping, and the output line is \<open>""\<close>.
\<close>

theorem C10_all_trailing_punctuation_stripped:
  "(set ps \<subseteq> set ''.,;'' \<and> (t = [] \<or> last t \<notin> set ''.,;'')
      \<longrightarrow> rstrip_chars ''.,;'' (t @ ps) = t) \<and>
   (CONNECTOR_PATTERN_split (strip line) = [source_part, target_part]
      \<and> set (strip target_part) \<subseteq> set ''.,;''
      \<longrightarrow> render_results ext [line] = ['''']) \<and>
   (CONNECTOR_PATTERN_split (strip line) = [source_part, target_part]
      \<and> parse_input ext (strip source_part) = Inr (value_text, Some parsed_unit)
      \<and> set parsed_unit \<subseteq> set ''.,;''
      \<longrightarrow> render_results ext [line] = [''''])"
proof (intro conjI impI)
  assume "set ps \<subseteq> set ''.,;'' \<and> (t = [] \<or> last t \<notin> set ''.,;'')"
  then show "rstrip_chars ''.,;'' (t @ ps) = t"
    by (simp add: rstrip_chars_append rstrip_chars_id)
next
  assume "CONNECTOR_PATTERN_split (strip line) = [source_part, target_part]
      \<and> set (strip target_part) \<subseteq> set ''.,;''"
  then have "output_of (convert_expression ext (strip line)) = ''''"
    using blank_target_punct by blast
  then show "render_results ext [line] = ['''']"
    by (simp add: render_results_single output_line_def)
next
  assume "CONNECTOR_PATTERN_split (strip line) = [source_part, target_part]
      \<and> parse_input ext (strip source_part) = Inr (value_text, Some parsed_unit)
      \<and> set parsed_unit \<subseteq> set ''.,;''"
  then have "output_of (convert_expression ext (strip line)) = ''''"
    using blank_unit_punct by blast
  then show "render_results ext [line] = ['''']"
    by (simp add: render_results_single output_line_def)
qed

theorem C10_all_trailing_punctuation_stripped_witness:
  "rstrip_chars ''.,;'' (''mm'' @ ''.;,'') = ''mm'' \<and>
   render_results example_externals [''12 inches to .;,''] = [''''] \<and>
   render_results example_externals [''12 .;, to mm''] = ['''']"
proof -
  note t = C10_all_trailing_punctuation_stripped
             [of "''.;,''" "''mm''" "''12 inches to .;,''" "''12 inches ''" "'' .;,''"
                 example_externals "Some ''12''" "''.;,''"]
  note u = C10_all_trailing_punctuation_stripped
             [of "''.;,''" "''mm''" "''12 .;, to mm''" "''12 .;, ''" "'' mm''"
                 example_externals "Some ''12''" "''.;,''"]
  have 1: "rstrip_chars ''.,;'' (''mm'' @ ''.;,'') = ''mm''"
    using t by simp
  have "CONNECTOR_PATTERN_split (strip ''12 inches to .;,'') = [''12 inches '', '' .;,'']"
    by (simp add: string_defs connector_defs)
  moreover have "set (strip '' .;,'') \<subseteq> set ''.,;''" by (simp add: string_defs)
  ultimately have 2: "render_results example_externals [''12 inches to .;,''] = ['''']"
    using t by blast
  have "CONNECTOR_PATTERN_split (strip ''12 .;, to mm'') = [''12 .;, '', '' mm'']"
    by (simp add: string_defs connector_defs)
  moreover have "parse_input example_externals (strip ''12 .;, '') = Inr (Some ''12'', Some ''.;,'')"
    by (simp add: string_defs example_defs)
  ultimately have 3: "render_results example_externals [''12 .;, to mm''] = ['''']"
    using u by simp
  from 1 2 3 show ?thesis by simp
qed

end
